theory Spec2Isabelle
  imports Complex_Main
begin

section \<open>AquaMetric: the swimming analysis core\<close>

text \<open>
  A shallow embedding of the analysis core of the AquaMetric backend
  (\<^verbatim>\<open>app/models.py\<close>, \<^verbatim>\<open>app/core/*.py\<close>). Python floats are idealised as
  real numbers, Python ints are \<open>int\<close>, an exception is the \<open>Inl\<close> branch of a sum.
\<close>

subsection \<open>Python values and errors\<close>

datatype py_error = ValueError | AxisError | IndexError | ZeroDivisionError

text \<open>\<^verbatim>\<open>int(x)\<close> on a float truncates toward zero.\<close>

definition py_int :: "real \<Rightarrow> int" where
  "py_int x = (if 0 \<le> x then \<lfloor>x\<rfloor> else \<lceil>x\<rceil>)"

text \<open>\<^verbatim>\<open>a / b\<close> raises on a zero divisor (for Python floats and ints alike).\<close>

definition py_truediv :: "real \<Rightarrow> real \<Rightarrow> py_error + real" where
  "py_truediv a b = (if b = 0 then Inl ZeroDivisionError else Inr (a / b))"

subsection \<open>\<^verbatim>\<open>schemas.py\<close>: stroke types\<close>

datatype StrokeType = FREESTYLE | BACKSTROKE | BREASTSTROKE | BUTTERFLY | UNKNOWN | REST | TURN

subsection \<open>\<^verbatim>\<open>models.py\<close>: laps and results\<close>

record SwimLap =
  lap_number :: int
  start_idx :: int
  end_idx :: int
  stroke_type :: StrokeType
  stroke_count :: int
  duration_sec :: real
  pool_length_m :: int

text \<open>\<^verbatim>\<open>return int(self.duration_sec + self.stroke_count)\<close>\<close>

definition swolf :: "SwimLap \<Rightarrow> int" where
  "swolf lap = py_int (duration_sec lap + of_int (stroke_count lap))"

definition distance_m :: "SwimLap \<Rightarrow> int" where
  "distance_m lap = pool_length_m lap"

text \<open>
  \<^verbatim>\<open>if self.pool_length_m <= 0: return 0.0\<close>
  \<^verbatim>\<open>return (self.duration_sec / self.pool_length_m) * 100\<close>
\<close>

definition pace_per_100m :: "SwimLap \<Rightarrow> py_error + real" where
  "pace_per_100m lap =
     (if pool_length_m lap \<le> 0 then Inr 0
      else case py_truediv (duration_sec lap) (of_int (pool_length_m lap)) of
             Inl e \<Rightarrow> Inl e
           | Inr q \<Rightarrow> Inr (q * 100))"

text \<open>
  The session id (a UUID) and the processing time are opaque to the analysis; the two
  filtered series kept for inspection are carried as they are (type parameter \<open>'arr\<close>).
\<close>

record 'arr AnalysisResult =
  session_id :: nat
  processed_at :: nat
  result_pool_length_m :: int
  laps :: "SwimLap list"
  filtered_accel :: "'arr option"
  filtered_gyro :: "'arr option"

definition total_laps :: "'arr AnalysisResult \<Rightarrow> int" where
  "total_laps r = int (length (laps r))"

definition total_distance_m :: "'arr AnalysisResult \<Rightarrow> int" where
  "total_distance_m r = sum_list (map distance_m (laps r))"

definition total_duration_sec :: "'arr AnalysisResult \<Rightarrow> real" where
  "total_duration_sec r = sum_list (map duration_sec (laps r))"

text \<open>
  \<^verbatim>\<open>if not self.laps: return 0.0\<close>
  \<^verbatim>\<open>return sum(lap.swolf for lap in self.laps) / len(self.laps)\<close>
\<close>

definition avg_swolf :: "'arr AnalysisResult \<Rightarrow> py_error + real" where
  "avg_swolf r =
     (if laps r = [] then Inr 0
      else py_truediv (of_int (sum_list (map swolf (laps r)))) (of_nat (length (laps r))))"

text \<open>The sum of the paces: the generator raises as soon as one pace raises.\<close>

fun sum_paces :: "SwimLap list \<Rightarrow> py_error + real" where
  "sum_paces [] = Inr 0"
| "sum_paces (lap # ls) =
     (case pace_per_100m lap of
        Inl e \<Rightarrow> Inl e
      | Inr p \<Rightarrow> (case sum_paces ls of Inl e \<Rightarrow> Inl e | Inr s \<Rightarrow> Inr (p + s)))"

definition avg_pace_per_100m :: "'arr AnalysisResult \<Rightarrow> py_error + real" where
  "avg_pace_per_100m r =
     (if laps r = [] then Inr 0
      else case sum_paces (laps r) of
             Inl e \<Rightarrow> Inl e
           | Inr s \<Rightarrow> py_truediv s (of_nat (length (laps r))))"

text \<open>
  A Python dict keeps its keys in insertion order, and \<^verbatim>\<open>max\<close> walks them in that order:
  the breakdown is an association list. Storing under a present key keeps its position,
  a new key goes to the end.
\<close>

fun dict_get :: "('k \<times> 'v) list \<Rightarrow> 'k \<Rightarrow> 'v \<Rightarrow> 'v" where
  "dict_get [] k d = d"
| "dict_get ((k', v) # kvs) k d = (if k' = k then v else dict_get kvs k d)"

fun dict_set :: "('k \<times> 'v) list \<Rightarrow> 'k \<Rightarrow> 'v \<Rightarrow> ('k \<times> 'v) list" where
  "dict_set [] k v = [(k, v)]"
| "dict_set ((k', v') # kvs) k v =
     (if k' = k then (k, v) # kvs else (k', v') # dict_set kvs k v)"

text \<open>\<^verbatim>\<open>breakdown[lap.stroke_type] = breakdown.get(lap.stroke_type, 0) + 1\<close>\<close>

definition count_lap :: "(StrokeType \<times> int) list \<Rightarrow> SwimLap \<Rightarrow> (StrokeType \<times> int) list" where
  "count_lap breakdown lap =
     dict_set breakdown (stroke_type lap) (dict_get breakdown (stroke_type lap) 0 + 1)"

definition get_stroke_breakdown :: "'arr AnalysisResult \<Rightarrow> (StrokeType \<times> int) list" where
  "get_stroke_breakdown r = foldl count_lap [] (laps r)"

text \<open>
  \<^verbatim>\<open>max(iterable, key=f)\<close> returns the first element whose key is maximal: a later
  element replaces the current best only when its key is strictly greater.
\<close>

definition py_max_key :: "('a \<Rightarrow> int) \<Rightarrow> 'a \<Rightarrow> 'a list \<Rightarrow> 'a" where
  "py_max_key f x xs = foldl (\<lambda>best y. if f best < f y then y else best) x xs"

definition primary_stroke :: "'arr AnalysisResult \<Rightarrow> StrokeType" where
  "primary_stroke r =
     (let breakdown = get_stroke_breakdown r in
      case map fst breakdown of
        [] \<Rightarrow> UNKNOWN
      | k # ks \<Rightarrow> py_max_key (\<lambda>s. dict_get breakdown s 0) k ks)"

subsection \<open>numpy arrays\<close>

text \<open>
  The arrays of the pipeline have shape \<open>(N,)\<close> or \<open>(N, 3)\<close>; a row of the latter is a
  triple \<open>(x, y, z)\<close>.
\<close>

type_synonym vec3 = "real \<times> real \<times> real"

datatype ndarray = Arr1 "real list" | Arr3 "vec3 list"

fun py_len :: "ndarray \<Rightarrow> nat" where
  "py_len (Arr1 xs) = length xs"
| "py_len (Arr3 rows) = length rows"

definition col_x :: "vec3 list \<Rightarrow> real list" where
  "col_x rows = map fst rows"

definition col_y :: "vec3 list \<Rightarrow> real list" where
  "col_y rows = map (\<lambda>r. fst (snd r)) rows"

definition col_z :: "vec3 list \<Rightarrow> real list" where
  "col_z rows = map (\<lambda>r. snd (snd r)) rows"

text \<open>\<^verbatim>\<open>np.mean\<close> of a non-empty vector.\<close>

definition np_mean :: "real list \<Rightarrow> real" where
  "np_mean xs = sum_list xs / real (length xs)"

text \<open>\<^verbatim>\<open>d.get(key, default)\<close> on a configuration dict.\<close>

definition cfg_get :: "(string \<rightharpoonup> real) \<Rightarrow> string \<Rightarrow> real \<Rightarrow> real" where
  "cfg_get d k dflt = (case d k of None \<Rightarrow> dflt | Some v \<Rightarrow> v)"

text \<open>
  A slice \<^verbatim>\<open>xs[a:b]\<close> of a sequence: a negative bound counts from the end, and both
  bounds are clipped to the sequence.
\<close>

definition slice_bound :: "nat \<Rightarrow> int \<Rightarrow> nat" where
  "slice_bound n k = (if k < 0 then nat (k + int n) else min (nat k) n)"

definition py_slice :: "'a list \<Rightarrow> int \<Rightarrow> int \<Rightarrow> 'a list" where
  "py_slice xs a b =
     (let lo = slice_bound (length xs) a; hi = slice_bound (length xs) b
      in take (hi - lo) (drop lo xs))"

subsection \<open>\<^verbatim>\<open>models.py\<close>: sensor data\<close>

text \<open>
  The container of the sensor arrays. The analysis stages read the arrays as values
  (\<open>ndarray SensorData\<close>); \<^verbatim>\<open>slice\<close>, whose result shares or does not share memory with
  its source, is modelled on array objects in a store (\<open>view SensorData\<close>, below).
\<close>

record 'arr SensorData =
  timestamps :: 'arr
  accel :: 'arr
  gyro :: 'arr
  mag :: "'arr option"
  pressure :: "'arr option"

text \<open>
  A numpy array object is a window on a buffer: the buffer's address, the index of the
  window's first row and the number of its rows. The store maps addresses to buffers.
\<close>

record view =
  buffer :: nat
  first_row :: nat
  n_rows :: nat

type_synonym store = "nat \<rightharpoonup> ndarray"

fun nd_rows :: "ndarray \<Rightarrow> nat \<Rightarrow> nat \<Rightarrow> ndarray" where
  "nd_rows (Arr1 xs) lo n = Arr1 (take n (drop lo xs))"
| "nd_rows (Arr3 rows) lo n = Arr3 (take n (drop lo rows))"

text \<open>The contents of an array object, when its window lies inside an allocated buffer.\<close>

definition array_read :: "store \<Rightarrow> view \<Rightarrow> ndarray option" where
  "array_read h v =
     (case h (buffer v) of
        None \<Rightarrow> None
      | Some b \<Rightarrow>
          if first_row v + n_rows v \<le> py_len b then Some (nd_rows b (first_row v) (n_rows v)) else None)"

text \<open>
  Basic slicing \<^verbatim>\<open>a[start_idx:end_idx]\<close> makes a new array object on the same buffer; no
  element is copied.
\<close>

definition view_slice :: "view \<Rightarrow> int \<Rightarrow> int \<Rightarrow> view" where
  "view_slice v start_i end_i =
     (let lo = slice_bound (n_rows v) start_i; hi = slice_bound (n_rows v) end_i
      in \<lparr>buffer = buffer v, first_row = first_row v + lo, n_rows = hi - lo\<rparr>)"

text \<open>
  An assignment \<^verbatim>\<open>a[i] = value\<close> (\<open>i \<ge> 0\<close>) writes into the buffer. A scalar is broadcast
  over a row; a row cannot be stored in a one-dimensional array.
\<close>

datatype item = Scalar real | Row vec3

fun nd_setitem :: "ndarray \<Rightarrow> nat \<Rightarrow> item \<Rightarrow> py_error + ndarray" where
  "nd_setitem (Arr1 xs) i (Scalar x) = Inr (Arr1 (xs[i := x]))"
| "nd_setitem (Arr1 xs) i (Row r) = Inl ValueError"
| "nd_setitem (Arr3 rows) i (Scalar x) = Inr (Arr3 (rows[i := (x, x, x)]))"
| "nd_setitem (Arr3 rows) i (Row r) = Inr (Arr3 (rows[i := r]))"

definition setitem :: "store \<Rightarrow> view \<Rightarrow> nat \<Rightarrow> item \<Rightarrow> py_error + store" where
  "setitem h v i value =
     (case h (buffer v) of
        None \<Rightarrow> Inl IndexError
      | Some b \<Rightarrow>
          if n_rows v \<le> i \<or> py_len b < first_row v + n_rows v then Inl IndexError
          else (case nd_setitem b (first_row v + i) value of
                  Inl e \<Rightarrow> Inl e
                | Inr b' \<Rightarrow> Inr (h(buffer v \<mapsto> b'))))"

text \<open>
  \<^verbatim>\<open>SensorData.slice\<close>: every present array is sliced; the store is handed back as it was.
\<close>

definition slice :: "store \<Rightarrow> view SensorData \<Rightarrow> int \<Rightarrow> int \<Rightarrow> store \<times> view SensorData" where
  "slice h self start_i end_i =
     (h, \<lparr>timestamps = view_slice (timestamps self) start_i end_i,
          accel = view_slice (accel self) start_i end_i,
          gyro = view_slice (gyro self) start_i end_i,
          mag = (case mag self of None \<Rightarrow> None
                 | Some m \<Rightarrow> Some (view_slice m start_i end_i)),
          pressure = (case pressure self of None \<Rightarrow> None
                      | Some p \<Rightarrow> Some (view_slice p start_i end_i))\<rparr>)"

subsection \<open>\<^verbatim>\<open>core/preprocessor.py\<close>: the low-pass filter\<close>

text \<open>
  The filter design and the zero-phase filtering come from \<^verbatim>\<open>scipy.signal\<close>, which is
  not part of the repository. They are modelled after the library: \<^verbatim>\<open>firwin\<close> is the
  Hamming-windowed sinc low-pass with unit gain at frequency zero, and \<^verbatim>\<open>filtfilt\<close> with
  its default padding extends the signal by \<open>3 * ntaps\<close> odd-reflected samples at each end,
  filters forward and backward from the steady state, and cuts the padding off. Before
  anything else \<^verbatim>\<open>filtfilt\<close> raises ValueError ("The length of the input vector x must be
  greater than padlen") when the signal has no more than \<open>3 * ntaps\<close> samples.
\<close>

definition np_sinc :: "real \<Rightarrow> real" where
  "np_sinc x = (if x = 0 then 1 else sin (pi * x) / (pi * x))"

definition hamming :: "nat \<Rightarrow> nat \<Rightarrow> real" where
  "hamming numtaps n =
     (if numtaps = 1 then 1
      else 54 / 100 - 46 / 100 * cos (2 * pi * real n / real (numtaps - 1)))"

definition firwin :: "nat \<Rightarrow> real \<Rightarrow> real list" where
  "firwin numtaps cutoff =
     (let alpha = (real numtaps - 1) / 2;
          h = map (\<lambda>n. cutoff * np_sinc (cutoff * (real n - alpha)) * hamming numtaps n)
                [0..<numtaps];
          s = sum_list h
      in map (\<lambda>c. c / s) h)"

definition odd_ext :: "real list \<Rightarrow> nat \<Rightarrow> real list" where
  "odd_ext x n =
     map (\<lambda>i. 2 * x ! 0 - x ! (n - i)) [0..<n]
     @ x
     @ map (\<lambda>i. 2 * last x - x ! (length x - 2 - i)) [0..<n]"

text \<open>
  One pass of the filter \<open>b\<close> started in its steady state for the first sample: the signal
  counts as constant before its start.
\<close>

definition lfilter_steady :: "real list \<Rightarrow> real list \<Rightarrow> real list" where
  "lfilter_steady b x =
     map (\<lambda>n. sum_list (map (\<lambda>k. b ! k * (if k \<le> n then x ! (n - k) else x ! 0))
                            [0..<length b]))
       [0..<length x]"

definition filtfilt_1d :: "real list \<Rightarrow> real list \<Rightarrow> py_error + real list" where
  "filtfilt_1d b x =
     (let edge = 3 * max (length b) 1 in
      if length x \<le> edge then Inl ValueError
      else
        (let ext = odd_ext x edge;
             forward = lfilter_steady b ext;
             backward = rev (lfilter_steady b (rev forward))
         in Inr (take (length x) (drop edge backward))))"

text \<open>With \<^verbatim>\<open>axis=0\<close> every column of an \<open>(N, 3)\<close> array is filtered on its own.\<close>

fun filtfilt :: "real list \<Rightarrow> ndarray \<Rightarrow> py_error + ndarray" where
  "filtfilt b (Arr1 x) =
     (case filtfilt_1d b x of Inl e \<Rightarrow> Inl e | Inr y \<Rightarrow> Inr (Arr1 y))"
| "filtfilt b (Arr3 rows) =
     (case filtfilt_1d b (col_x rows) of
        Inl e \<Rightarrow> Inl e
      | Inr fx \<Rightarrow>
          (case filtfilt_1d b (col_y rows) of
             Inl e \<Rightarrow> Inl e
           | Inr fy \<Rightarrow>
               (case filtfilt_1d b (col_z rows) of
                  Inl e \<Rightarrow> Inl e
                | Inr fz \<Rightarrow> Inr (Arr3 (zip fx (zip fy fz))))))"

text \<open>The filter order is a natural number; \<^verbatim>\<open>numtaps = order + 1\<close>.\<close>

record SwimBITFilter =
  order :: nat
  cutoff_hz :: real

text \<open>
  \<^verbatim>\<open>_get_filter_taps\<close>. The cache memoises a pure function of the sampling rate and is
  left out. \<^verbatim>\<open>self.cutoff_hz / nyquist\<close> raises for a sampling rate of zero.
\<close>

definition get_filter_taps :: "SwimBITFilter \<Rightarrow> real \<Rightarrow> py_error + real list" where
  "get_filter_taps self sampling_rate =
     (let nyquist = (1 / 2) * sampling_rate in
      case py_truediv (cutoff_hz self) nyquist of
        Inl e \<Rightarrow> Inl e
      | Inr normalized_cutoff \<Rightarrow>
          Inr (firwin (order self + 1) (min (max normalized_cutoff (1 / 100)) (99 / 100))))"

text \<open>
  \<^verbatim>\<open>if len(data) <= self.order + 1: return data\<close>
  \<^verbatim>\<open>taps = self._get_filter_taps(sampling_rate)\<close>
  then \<^verbatim>\<open>filtfilt(taps, 1.0, data)\<close> or \<^verbatim>\<open>filtfilt(taps, 1.0, data, axis=0)\<close>.
\<close>

definition process :: "SwimBITFilter \<Rightarrow> ndarray \<Rightarrow> real \<Rightarrow> py_error + ndarray" where
  "process self data sampling_rate =
     (if py_len data \<le> order self + 1 then Inr data
      else case get_filter_taps self sampling_rate of
             Inl e \<Rightarrow> Inl e
           | Inr taps \<Rightarrow> filtfilt taps data)"

subsection \<open>\<^verbatim>\<open>core/segmenter.py\<close>: lap segmentation\<close>




text \<open>
  The masks are 0/1 integer arrays read only through their truth value; they are
  modelled as lists of booleans. The window of sample \<open>i\<close> is
  \<^verbatim>\<open>mask[max(0, i - size):min(len(mask), i + size + 1)]\<close> (\<open>msk\<close> and \<open>sz\<close> are the
  source's \<^verbatim>\<open>mask\<close> and \<^verbatim>\<open>size\<close>).
\<close>

definition window :: "bool list \<Rightarrow> int \<Rightarrow> nat \<Rightarrow> bool list" where
  "window msk sz i =
     py_slice msk (max 0 (int i - sz)) (min (int (length msk)) (int i + sz + 1))"

text \<open>
  \<^verbatim>\<open>_morphological_close\<close>: the first loop reads \<^verbatim>\<open>mask\<close> and sets \<^verbatim>\<open>result[i] = 1\<close>
  where the window holds a true sample; the second reads \<^verbatim>\<open>result\<close> and sets
  \<^verbatim>\<open>closed[i] = 0\<close> where the window holds a false one.
\<close>

definition dilate :: "bool list \<Rightarrow> int \<Rightarrow> bool list" where
  "dilate msk sz =
     map (\<lambda>i. if (\<exists>b \<in> set (window msk sz i). b) then True else msk ! i) [0..<length msk]"

definition erode :: "bool list \<Rightarrow> int \<Rightarrow> bool list" where
  "erode msk sz =
     map (\<lambda>i. if \<not> (\<forall>b \<in> set (window msk sz i). b) then False else msk ! i) [0..<length msk]"







subsection \<open>\<^verbatim>\<open>core/classifier.py\<close>: the energy classifier\<close>

text \<open>
  \<^verbatim>\<open>_calculate_energy\<close> on one axis: the mean absolute deviation from the mean,
  \<^verbatim>\<open>np.sum(np.abs(data - mean)) / len(data)\<close>. On an \<open>(N, 3)\<close> array it is taken per column.
\<close>

definition axis_energy :: "real list \<Rightarrow> real" where
  "axis_energy xs = sum_list (map (\<lambda>x. \<bar>x - np_mean xs\<bar>) xs) / real (length xs)"

definition calculate_energy :: "vec3 list \<Rightarrow> vec3" where
  "calculate_energy rows =
     (axis_energy (col_x rows), axis_energy (col_y rows), axis_energy (col_z rows))"

text \<open>
  \<^verbatim>\<open>z_mean = np.mean(accel_data[:, 2])\<close>
  \<^verbatim>\<open>threshold = self.thresholds.get('backstroke_gravity_z', 5.0)\<close>
  \<^verbatim>\<open>return z_mean > threshold\<close>
\<close>

definition detect_backstroke_by_gravity :: "(string \<rightharpoonup> real) \<Rightarrow> vec3 list \<Rightarrow> bool" where
  "detect_backstroke_by_gravity thresholds accel_data =
     (cfg_get thresholds ''backstroke_gravity_z'' 5 < np_mean (col_z accel_data))"

text \<open>
  \<^verbatim>\<open>classify\<close>. The length test comes first and holds for either shape. On a
  one-dimensional array of 30 or more samples \<^verbatim>\<open>_calculate_energy\<close> returns a scalar and
  \<^verbatim>\<open>energies[0]\<close> raises IndexError.
\<close>

fun classify :: "(string \<rightharpoonup> real) \<Rightarrow> ndarray \<Rightarrow> py_error + StrokeType" where
  "classify thresholds (Arr1 xs) =
     (if length xs < 30 then Inr UNKNOWN else Inl IndexError)"
| "classify thresholds (Arr3 lap_data) =
     (if length lap_data < 30 then Inr UNKNOWN
      else
        (case calculate_energy lap_data of (E_x, E_y, E_z) \<Rightarrow>
           if detect_backstroke_by_gravity thresholds lap_data then Inr BACKSTROKE
           else
             (let y_ratio = cfg_get thresholds ''freestyle_y_energy_ratio'' (12 / 10) in
              if E_x * y_ratio < E_y \<and> E_z * y_ratio < E_y then Inr FREESTYLE
              else if E_y \<le> E_z then
                (let butterfly_threshold = cfg_get thresholds ''butterfly_x_energy'' 15;
                     breaststroke_max = cfg_get thresholds ''breaststroke_energy_max'' 12
                 in if butterfly_threshold < E_x then Inr BUTTERFLY
                    else if E_x < breaststroke_max then Inr BREASTSTROKE
                    else (let total_energy = E_x + E_y + E_z
                          in if 35 < total_energy then Inr BUTTERFLY else Inr BREASTSTROKE))
              else Inr FREESTYLE)))"

subsection \<open>Peak detection (\<^verbatim>\<open>scipy.signal.find_peaks\<close>)\<close>

text \<open>
  \<^verbatim>\<open>find_peaks(x, distance=d)\<close> is library code, modelled after its two steps. First the
  local maxima: a sample that is greater than its predecessor and, after a plateau of
  equal samples, greater than the next different sample; the first and the last sample
  are never maxima and a plateau counts with its middle index.
\<close>

function skip_plateau :: "real list \<Rightarrow> nat \<Rightarrow> nat \<Rightarrow> nat" where
  "skip_plateau x i i_ahead =
     (if i_ahead < length x - 1 \<and> x ! i_ahead = x ! i
      then skip_plateau x i (i_ahead + 1) else i_ahead)"
  by pat_completeness auto
termination
  by (relation "measure (\<lambda>(x, i, i_ahead). length x - 1 - i_ahead)") auto

declare skip_plateau.simps [simp del]

lemma skip_plateau_ge: "i_ahead \<le> skip_plateau x i i_ahead"
proof (induction x i i_ahead rule: skip_plateau.induct)
  case (1 x i i_ahead)
  show ?case
  proof (cases "i_ahead < length x - 1 \<and> x ! i_ahead = x ! i")
    case True
    with "1.IH" have "i_ahead + 1 \<le> skip_plateau x i (i_ahead + 1)" by simp
    with True show ?thesis by (subst skip_plateau.simps) simp
  next
    case False
    then show ?thesis by (subst skip_plateau.simps) auto
  qed
qed

function local_maxima_loop :: "real list \<Rightarrow> nat \<Rightarrow> nat list" where
  "local_maxima_loop x i =
     (if i < length x - 1 then
        (if x ! (i - 1) < x ! i then
           (if x ! (skip_plateau x i (i + 1)) < x ! i
            then ((i + (skip_plateau x i (i + 1) - 1)) div 2)
                   # local_maxima_loop x (skip_plateau x i (i + 1) + 1)
            else local_maxima_loop x (i + 1))
         else local_maxima_loop x (i + 1))
      else [])"
  by pat_completeness auto
termination
proof (relation "measure (\<lambda>(x, i). length x - 1 - i)")
  fix x :: "real list" and i :: nat
  assume "i < length x - 1"
  moreover have "i + 1 \<le> skip_plateau x i (i + 1)" by (rule skip_plateau_ge)
  ultimately show "((x, skip_plateau x i (i + 1) + 1), (x, i)) \<in> measure (\<lambda>(x, i). length x - 1 - i)"
    by simp
qed auto

declare local_maxima_loop.simps [simp del]

definition local_maxima_1d :: "real list \<Rightarrow> nat list" where
  "local_maxima_1d x = local_maxima_loop x 1"

text \<open>
  Then the selection by distance: the peaks are visited from the highest to the lowest
  (\<^verbatim>\<open>argsort\<close> of the heights, read backwards; equal heights are taken in the order of a
  stable sort), and a peak that is still kept unflags its neighbours on both sides that are
  closer than \<open>distance\<close>.
\<close>

fun flag_earlier :: "nat list \<Rightarrow> int \<Rightarrow> nat \<Rightarrow> nat \<Rightarrow> bool list \<Rightarrow> bool list" where
  "flag_earlier peaks distance j 0 keep = keep"
| "flag_earlier peaks distance j (Suc k) keep =
     (if int (peaks ! j) - int (peaks ! k) < distance
      then flag_earlier peaks distance j k (keep[k := False]) else keep)"

function flag_later :: "nat list \<Rightarrow> int \<Rightarrow> nat \<Rightarrow> nat \<Rightarrow> bool list \<Rightarrow> bool list" where
  "flag_later peaks distance j k keep =
     (if k < length peaks \<and> int (peaks ! k) - int (peaks ! j) < distance
      then flag_later peaks distance j (k + 1) (keep[k := False]) else keep)"
  by pat_completeness auto
termination
  by (relation "measure (\<lambda>(peaks, distance, j, k, keep). length peaks - k)") auto

declare flag_later.simps [simp del]

text \<open>
  One round of the loop for the peak at position \<open>j\<close>: \<^verbatim>\<open>k = j - 1\<close> downwards, then
  \<^verbatim>\<open>k = j + 1\<close> upwards.
\<close>

definition visit_peak :: "nat list \<Rightarrow> int \<Rightarrow> bool list \<Rightarrow> nat \<Rightarrow> bool list" where
  "visit_peak peaks distance keep j =
     (if \<not> keep ! j then keep
      else flag_later peaks distance j (j + 1) (flag_earlier peaks distance j j keep))"

definition select_by_peak_distance :: "nat list \<Rightarrow> real list \<Rightarrow> int \<Rightarrow> bool list" where
  "select_by_peak_distance peaks priority distance =
     (let priority_to_position = sort_key (\<lambda>j. priority ! j) [0..<length peaks]
      in foldl (visit_peak peaks distance) (replicate (length peaks) True)
           (rev priority_to_position))"

definition find_peaks :: "real list \<Rightarrow> int \<Rightarrow> py_error + nat list" where
  "find_peaks x distance =
     (if distance < 1 then Inl ValueError
      else
        (let peaks = local_maxima_1d x;
             keep = select_by_peak_distance peaks (map (\<lambda>p. x ! p) peaks) distance
         in Inr (map fst (filter snd (zip peaks keep)))))"

subsection \<open>The discrete Fourier transform (\<^verbatim>\<open>numpy.fft\<close>)\<close>

definition np_fft :: "real list \<Rightarrow> complex list" where
  "np_fft x =
     map (\<lambda>k. sum_list (map (\<lambda>j. of_real (x ! j)
                               * cis (- 2 * pi * real j * real k / real (length x)))
                         [0..<length x]))
       [0..<length x]"

text \<open>
  \<^verbatim>\<open>fftfreq(n, d)\<close>: the first \<open>(n - 1) div 2 + 1\<close> entries are \<open>k / (n d)\<close>, the others
  \<open>(k - n) / (n d)\<close>.
\<close>

definition fftfreq :: "nat \<Rightarrow> real \<Rightarrow> py_error + real list" where
  "fftfreq n d =
     (case py_truediv 1 (real n * d) of
        Inl e \<Rightarrow> Inl e
      | Inr val \<Rightarrow>
          Inr (map (\<lambda>k. (if k < (n - 1) div 2 + 1 then real k else real k - real n) * val)
                 [0..<n]))"

text \<open>\<^verbatim>\<open>np.argmax\<close>: the first index of the greatest entry; ValueError on an empty array.\<close>

definition np_argmax :: "real list \<Rightarrow> py_error + nat" where
  "np_argmax xs =
     (case xs of
        [] \<Rightarrow> Inl ValueError
      | x # rest \<Rightarrow>
          Inr (fst (foldl (\<lambda>(bi, bv) (i, v). if bv < v then (i, v) else (bi, bv)) (0, x)
                      (zip [1..<length xs] rest))))"

subsection \<open>\<^verbatim>\<open>core/stroke_counter.py\<close>: counting strokes\<close>

record BasicStrokeCounter =
  counter_sampling_rate :: real

text \<open>The table of \<^verbatim>\<open>_get_stroke_frequency_range\<close>, with its default for the other styles.\<close>

fun get_stroke_frequency_range :: "StrokeType \<Rightarrow> real \<times> real" where
  "get_stroke_frequency_range FREESTYLE = (6 / 10, 15 / 10)"
| "get_stroke_frequency_range BACKSTROKE = (5 / 10, 12 / 10)"
| "get_stroke_frequency_range BREASTSTROKE = (3 / 10, 8 / 10)"
| "get_stroke_frequency_range BUTTERFLY = (4 / 10, 1)"
| "get_stroke_frequency_range UNKNOWN = (3 / 10, 15 / 10)"
| "get_stroke_frequency_range REST = (3 / 10, 15 / 10)"
| "get_stroke_frequency_range TURN = (3 / 10, 15 / 10)"

text \<open>
  \<^verbatim>\<open>min_period = 1.0 / max_freq\<close>
  \<^verbatim>\<open>return int(min_period * self.sampling_rate)\<close>
\<close>

definition calculate_min_peak_distance :: "BasicStrokeCounter \<Rightarrow> StrokeType \<Rightarrow> int" where
  "calculate_min_peak_distance self style =
     (case get_stroke_frequency_range style of
        (_, max_freq) \<Rightarrow> py_int ((1 / max_freq) * counter_sampling_rate self))"

text \<open>
  \<^verbatim>\<open>stroke_type in [StrokeType.FREESTYLE, StrokeType.BACKSTROKE]\<close> (the argument
  \<^verbatim>\<open>stroke_type\<close> is called \<open>style\<close> here).
\<close>

definition bilateral :: "StrokeType \<Rightarrow> bool" where
  "bilateral style \<longleftrightarrow> style = FREESTYLE \<or> style = BACKSTROKE"

text \<open>The chosen axis: \<^verbatim>\<open>lap_data[:, 1]\<close> for the bilateral styles, \<^verbatim>\<open>lap_data[:, 2]\<close> otherwise.\<close>

definition stroke_axis :: "vec3 list \<Rightarrow> StrokeType \<Rightarrow> real list" where
  "stroke_axis lap_data style =
     (if bilateral style then col_y lap_data else col_z lap_data)"

text \<open>
  \<^verbatim>\<open>count_strokes\<close> (peak detection). On a one-dimensional array of ten or more samples
  the column index raises IndexError.
\<close>

fun count_strokes :: "BasicStrokeCounter \<Rightarrow> ndarray \<Rightarrow> StrokeType \<Rightarrow> py_error + int" where
  "count_strokes self (Arr1 xs) style =
     (if length xs < 10 then Inr 0 else Inl IndexError)"
| "count_strokes self (Arr3 lap_data) style =
     (if length lap_data < 10 then Inr 0
      else
        (let axis = stroke_axis lap_data style;
             signal = map (\<lambda>v. v - np_mean axis) axis;
             min_distance = max 3 (calculate_min_peak_distance self style)
         in case find_peaks signal min_distance of
              Inl e \<Rightarrow> Inl e
            | Inr peaks_pos \<Rightarrow>
                (case find_peaks (map uminus signal) min_distance of
                   Inl e \<Rightarrow> Inl e
                 | Inr peaks_neg \<Rightarrow>
                     Inr (if bilateral style then int (length peaks_pos)
                          else max (int (length peaks_pos)) (int (length peaks_neg))))))"

text \<open>
  The positive frequencies of the spectrum, \<^verbatim>\<open>freqs[freqs > 0]\<close>, with the indices of
  their bins; \<^verbatim>\<open>1.0/self.sampling_rate\<close> raises for a sampling rate of zero.
\<close>

definition positive_bins :: "real list \<Rightarrow> nat list" where
  "positive_bins freqs = filter (\<lambda>k. 0 < freqs ! k) [0..<length freqs]"

definition in_band :: "StrokeType \<Rightarrow> real \<Rightarrow> bool" where
  "in_band style f =
     (case get_stroke_frequency_range style of
        (min_freq, max_freq) \<Rightarrow> min_freq \<le> f \<and> f \<le> max_freq)"

text \<open>\<^verbatim>\<open>count_strokes_fft\<close> (spectral estimate).\<close>

fun count_strokes_fft :: "BasicStrokeCounter \<Rightarrow> ndarray \<Rightarrow> StrokeType \<Rightarrow> py_error + int" where
  "count_strokes_fft self (Arr1 xs) style =
     (if length xs < 30 then count_strokes self (Arr1 xs) style else Inl IndexError)"
| "count_strokes_fft self (Arr3 lap_data) style =
     (if length lap_data < 30 then count_strokes self (Arr3 lap_data) style
      else
        (let axis = stroke_axis lap_data style;
             n = length axis;
             fft = np_fft (map (\<lambda>v. v - np_mean axis) axis)
         in case py_truediv 1 (counter_sampling_rate self) of
              Inl e \<Rightarrow> Inl e
            | Inr d \<Rightarrow>
           (case fftfreq n d of
              Inl e \<Rightarrow> Inl e
            | Inr freqs \<Rightarrow>
                (let magnitudes = map (\<lambda>k. cmod (fft ! k)) (positive_bins freqs);
                     positive_freqs = map (\<lambda>k. freqs ! k) (positive_bins freqs);
                     freq_mask = map (in_band style) positive_freqs
                 in if \<not> (\<exists>b \<in> set freq_mask. b) then Inr 0
                    else
                      (let masked_mags = map (\<lambda>(m, b). if b then m else 0)
                                           (zip magnitudes freq_mask)
                       in case np_argmax masked_mags of
                            Inl e \<Rightarrow> Inl e
                          | Inr dominant_idx \<Rightarrow>
                              (let dominant_freq = positive_freqs ! dominant_idx in
                               case py_truediv (real n) (counter_sampling_rate self) of
                                 Inl e \<Rightarrow> Inl e
                               | Inr duration_s \<Rightarrow>
                                   Inr (py_int (dominant_freq * duration_s))))))))"




subsection \<open>\<^verbatim>\<open>core/pipeline.py\<close>: the orchestrator\<close>








subsection \<open>Predicates used in the proofs\<close>



subsection \<open>Concrete inputs used below\<close>





abbreviation lap_of :: "int \<Rightarrow> StrokeType \<Rightarrow> int \<Rightarrow> real \<Rightarrow> SwimLap" where
  "lap_of i s c d \<equiv> \<lparr>lap_number = i, start_idx = 0, end_idx = 0, stroke_type = s,
      stroke_count = c, duration_sec = d, pool_length_m = 25\<rparr>"

abbreviation four_laps :: "unit AnalysisResult" where
  "four_laps \<equiv> \<lparr>session_id = 1, processed_at = 0, result_pool_length_m = 25,
      laps = [lap_of 1 BACKSTROKE 18 20, lap_of 2 FREESTYLE 17 21,
              lap_of 3 FREESTYLE 16 22, lap_of 4 BACKSTROKE 19 (41 / 2)],
      filtered_accel = None, filtered_gyro = None\<rparr>"

abbreviation no_laps :: "unit AnalysisResult" where
  "no_laps \<equiv> \<lparr>session_id = 1, processed_at = 0, result_pool_length_m = 25, laps = [],
      filtered_accel = None, filtered_gyro = None\<rparr>"

abbreviation face_up_lap :: "vec3 list" where
  "face_up_lap \<equiv> replicate 30 (0, 0, 6)"




text \<open>A lap at rest but for one raised sample on the Z axis, and a counter at 30 Hz.\<close>

abbreviation bump_lap :: "nat \<Rightarrow> vec3 list" where
  "bump_lap n \<equiv> (0, 0, 0) # (0, 0, 1) # replicate n (0, 0, 0)"

abbreviation counter_30hz :: BasicStrokeCounter where
  "counter_30hz \<equiv> \<lparr>counter_sampling_rate = 30\<rparr>"

text \<open>A store with three buffers of four rows and a SensorData on them.\<close>

abbreviation four_rows :: "vec3 list" where
  "four_rows \<equiv> [(1, 1, 1), (2, 2, 2), (3, 3, 3), (4, 4, 4)]"

abbreviation store0 :: store where
  "store0 \<equiv> [0 \<mapsto> Arr1 [0, 1, 2, 3], 1 \<mapsto> Arr3 four_rows, 2 \<mapsto> Arr3 four_rows]"

abbreviation sensor_views :: "view SensorData" where
  "sensor_views \<equiv> \<lparr>timestamps = \<lparr>buffer = 0, first_row = 0, n_rows = 4\<rparr>,
      accel = \<lparr>buffer = 1, first_row = 0, n_rows = 4\<rparr>,
      gyro = \<lparr>buffer = 2, first_row = 0, n_rows = 4\<rparr>,
      mag = None, pressure = None\<rparr>"





section \<open>Properties\<close>

subsection \<open>SWOLF and pace of one lap\<close>




subsection \<open>Empty results\<close>

text \<open>
  Claim C10. For every AnalysisResult whose list of laps is empty, \<open>avg_swolf\<close> is 0.0,
  \<open>avg_pace_per_100m\<close> is 0.0 and \<open>primary_stroke\<close> is unknown: the averages do not
  reach their division, so neither raises ZeroDivisionError.
\<close>

theorem empty_result_aggregates:
  assumes "laps r = []"
  shows "avg_swolf r = Inr 0 \<and> avg_pace_per_100m r = Inr 0 \<and> primary_stroke r = UNKNOWN"
  using assms
  by (simp add: avg_swolf_def avg_pace_per_100m_def primary_stroke_def get_stroke_breakdown_def)

theorem empty_result_aggregates_witness:
  "laps no_laps = [] \<and> avg_swolf no_laps = Inr 0 \<and> avg_pace_per_100m no_laps = Inr 0
   \<and> primary_stroke no_laps = UNKNOWN"
  using empty_result_aggregates[of no_laps]
  by simp

subsection \<open>The stroke breakdown and the primary stroke\<close>

text \<open>The breakdown's keys stand in the order of their first lap, each with its lap count.\<close>

lemma keys_dict_set:
  "map fst (dict_set d k v) = (if k \<in> set (map fst d) then map fst d else map fst d @ [k])"
  by (induction d) force+

lemma dict_get_dict_set:
  "dict_get (dict_set d k v) k' dflt = (if k' = k then v else dict_get d k' dflt)"
  by (induction d) auto

lemma dict_get_absent: "k \<notin> set (map fst d) \<Longrightarrow> dict_get d k dflt = dflt"
  by (induction d) auto

lemma keys_count_lap:
  "map fst (count_lap d l) =
     (if stroke_type l \<in> set (map fst d) then map fst d else map fst d @ [stroke_type l])"
  unfolding count_lap_def by (rule keys_dict_set)

lemma get_count_lap:
  "dict_get (count_lap d l) s 0 = (if s = stroke_type l then dict_get d s 0 + 1 else dict_get d s 0)"
  unfolding count_lap_def by (simp add: dict_get_dict_set)

lemma breakdown_snoc:
  "foldl count_lap [] (ls @ [l]) = count_lap (foldl count_lap [] ls) l"
  by simp

lemma breakdown_keys: "set (map fst (foldl count_lap [] ls)) = set (map stroke_type ls)"
proof (induction ls rule: rev_induct)
  case Nil
  then show ?case by simp
next
  case (snoc l ls)
  then show ?case
    by (auto simp: keys_count_lap)
qed

lemma breakdown_counts:
  "dict_get (foldl count_lap [] ls) s 0 = int (count_list (map stroke_type ls) s)"
proof (induction ls arbitrary: s rule: rev_induct)
  case Nil
  then show ?case by simp
next
  case (snoc l ls)
  then show ?case
    by (simp add: get_count_lap)
qed

lemma breakdown_before:
  "map fst (foldl count_lap [] ls) = pre @ p # post \<Longrightarrow>
   set pre = set (takeWhile (\<lambda>y. y \<noteq> p) (map stroke_type ls))"
proof (induction ls arbitrary: post rule: rev_induct)
  case Nil
  then show ?case by simp
next
  case (snoc l ls)
  let ?d = "foldl count_lap [] ls"
  let ?ss = "map stroke_type ls"
  show ?case
  proof (cases "stroke_type l \<in> set (map fst ?d)")
    case True
    with snoc.prems have split: "map fst ?d = pre @ p # post"
      by (simp add: keys_count_lap)
    then have "p \<in> set (map fst ?d)" by simp
    then have "p \<in> set ?ss" using breakdown_keys[of ls] by simp
    then have "takeWhile (\<lambda>y. y \<noteq> p) (?ss @ [stroke_type l]) = takeWhile (\<lambda>y. y \<noteq> p) ?ss"
      by (intro takeWhile_append1[where x = p]) auto
    with snoc.IH[OF split] show ?thesis by simp
  next
    case False
    with snoc.prems have split: "map fst ?d @ [stroke_type l] = pre @ p # post"
      by (simp add: keys_count_lap)
    show ?thesis
    proof (cases post rule: rev_cases)
      case Nil
      with split have p: "p = stroke_type l" and pre: "pre = map fst ?d" by auto
      from False have "stroke_type l \<notin> set ?ss" using breakdown_keys[of ls] by simp
      then have "takeWhile (\<lambda>y. y \<noteq> p) (?ss @ [stroke_type l]) = ?ss"
        using p by (subst takeWhile_append2) force+
      then show ?thesis using pre breakdown_keys[of ls] by simp
    next
      case (snoc post' z)
      with split have split': "map fst ?d = pre @ p # post'" by simp
      then have "p \<in> set (map fst ?d)" by simp
      then have "p \<in> set ?ss" using breakdown_keys[of ls] by simp
      then have "takeWhile (\<lambda>y. y \<noteq> p) (?ss @ [stroke_type l]) = takeWhile (\<lambda>y. y \<noteq> p) ?ss"
        by (intro takeWhile_append1[where x = p]) auto
      with snoc.IH[OF split'] show ?thesis by simp
    qed
  qed
qed

lemma py_max_key_split:
  "py_max_key f x xs = x \<and> (\<forall>y\<in>set xs. f y \<le> f x)
   \<or> (\<exists>pre post. xs = pre @ py_max_key f x xs # post \<and> f x < f (py_max_key f x xs)
        \<and> (\<forall>y\<in>set pre. f y < f (py_max_key f x xs))
        \<and> (\<forall>y\<in>set post. f y \<le> f (py_max_key f x xs)))"
proof (induction xs arbitrary: x)
  case Nil
  then show ?case by (simp add: py_max_key_def)
next
  case (Cons y ys)
  show ?case
  proof (cases "f x < f y")
    case True
    then have step: "py_max_key f x (y # ys) = py_max_key f y ys"
      by (simp add: py_max_key_def)
    let ?p = "py_max_key f y ys"
    from Cons.IH[of y] show ?thesis
    proof
      assume a: "?p = y \<and> (\<forall>z\<in>set ys. f z \<le> f y)"
      then have "y # ys = [] @ ?p # ys" by simp
      with a True step show ?thesis by (metis empty_iff list.set(1))
    next
      assume "\<exists>pre post. ys = pre @ ?p # post \<and> f y < f ?p
        \<and> (\<forall>z\<in>set pre. f z < f ?p) \<and> (\<forall>z\<in>set post. f z \<le> f ?p)"
      then obtain pre post where b: "ys = pre @ ?p # post" "f y < f ?p"
        "\<forall>z\<in>set pre. f z < f ?p" "\<forall>z\<in>set post. f z \<le> f ?p" by blast
      then have "y # ys = (y # pre) @ ?p # post" "f x < f ?p" "\<forall>z\<in>set (y # pre). f z < f ?p"
        using True by auto
      with b(4) step show ?thesis by metis
    qed
  next
    case False
    then have step: "py_max_key f x (y # ys) = py_max_key f x ys"
      by (simp add: py_max_key_def)
    let ?p = "py_max_key f x ys"
    from Cons.IH[of x] show ?thesis
    proof
      assume a: "?p = x \<and> (\<forall>z\<in>set ys. f z \<le> f x)"
      with False step show ?thesis by auto
    next
      assume "\<exists>pre post. ys = pre @ ?p # post \<and> f x < f ?p
        \<and> (\<forall>z\<in>set pre. f z < f ?p) \<and> (\<forall>z\<in>set post. f z \<le> f ?p)"
      then obtain pre post where b: "ys = pre @ ?p # post" "f x < f ?p"
        "\<forall>z\<in>set pre. f z < f ?p" "\<forall>z\<in>set post. f z \<le> f ?p" by blast
      then have "y # ys = (y # pre) @ ?p # post" "\<forall>z\<in>set (y # pre). f z < f ?p"
        using False by auto
      with b(2,4) step show ?thesis by metis
    qed
  qed
qed

lemma py_max_key_first_max:
  "\<exists>pre post. x # xs = pre @ py_max_key f x xs # post
        \<and> (\<forall>y\<in>set pre. f y < f (py_max_key f x xs))
        \<and> (\<forall>y\<in>set post. f y \<le> f (py_max_key f x xs))"
proof -
  let ?p = "py_max_key f x xs"
  from py_max_key_split[of f x xs] show ?thesis
  proof
    assume a: "?p = x \<and> (\<forall>y\<in>set xs. f y \<le> f x)"
    then have "x # xs = [] @ ?p # xs" by simp
    with a show ?thesis by (metis empty_iff list.set(1))
  next
    assume "\<exists>pre post. xs = pre @ ?p # post \<and> f x < f ?p
        \<and> (\<forall>y\<in>set pre. f y < f ?p) \<and> (\<forall>y\<in>set post. f y \<le> f ?p)"
    then obtain pre post where b: "xs = pre @ ?p # post" "f x < f ?p"
        "\<forall>z\<in>set pre. f z < f ?p" "\<forall>z\<in>set post. f z \<le> f ?p" by blast
    then have "x # xs = (x # pre) @ ?p # post" "\<forall>z\<in>set (x # pre). f z < f ?p" by auto
    with b(4) show ?thesis by metis
  qed
qed

lemma primary_stroke_first_max:
  assumes "laps r \<noteq> []"
  shows "primary_stroke r \<in> set (map stroke_type (laps r))"
    and "count_list (map stroke_type (laps r)) s
           \<le> count_list (map stroke_type (laps r)) (primary_stroke r)"
    and "\<forall>s \<in> set (takeWhile (\<lambda>y. y \<noteq> primary_stroke r) (map stroke_type (laps r))).
           count_list (map stroke_type (laps r)) s
             < count_list (map stroke_type (laps r)) (primary_stroke r)"
proof -
  let ?d = "get_stroke_breakdown r"
  let ?ss = "map stroke_type (laps r)"
  let ?f = "\<lambda>s. dict_get ?d s 0"
  have f: "?f s = int (count_list ?ss s)" for s
    by (simp add: get_stroke_breakdown_def breakdown_counts)
  have keys: "set (map fst ?d) = set ?ss"
    using breakdown_keys[of "laps r"] by (simp add: get_stroke_breakdown_def)
  with assms have "map fst ?d \<noteq> []" by auto
  then obtain k ks where kks: "map fst ?d = k # ks" by (cases "map fst ?d") auto
  then have p: "primary_stroke r = py_max_key ?f k ks"
    by (simp add: primary_stroke_def Let_def)
  from py_max_key_first_max[of k ks ?f] obtain pre post where
    split: "k # ks = pre @ primary_stroke r # post"
    and lt: "\<forall>y\<in>set pre. ?f y < ?f (primary_stroke r)"
    and le: "\<forall>y\<in>set post. ?f y \<le> ?f (primary_stroke r)"
    unfolding p by blast
  from split kks have split': "map fst ?d = pre @ primary_stroke r # post" by simp
  then have "primary_stroke r \<in> set (map fst ?d)" by simp
  with keys show "primary_stroke r \<in> set ?ss" by simp
  show "count_list ?ss s \<le> count_list ?ss (primary_stroke r)"
  proof (cases "s \<in> set ?ss")
    case True
    with keys split' have "s \<in> set pre \<or> s = primary_stroke r \<or> s \<in> set post" by auto
    with lt le have "?f s \<le> ?f (primary_stroke r)" by force
    then show ?thesis by (simp only: f)
  next
    case False
    then show ?thesis by (simp add: count_list_0_iff)
  qed
  have "set pre = set (takeWhile (\<lambda>y. y \<noteq> primary_stroke r) ?ss)"
    using breakdown_before[of "laps r" pre "primary_stroke r" post] split'
    by (simp add: get_stroke_breakdown_def)
  with lt show "\<forall>s \<in> set (takeWhile (\<lambda>y. y \<noteq> primary_stroke r) ?ss).
           count_list ?ss s < count_list ?ss (primary_stroke r)"
    by (simp only: f) simp
qed

lemma sum_list_distance:
  "\<forall>lap \<in> set ls. pool_length_m lap = p \<Longrightarrow> sum_list (map distance_m ls) = p * int (length ls)"
  by (induction ls) (auto simp: distance_m_def algebra_simps)

text \<open>
  Claim C9. When every lap has pool length \<open>p\<close>, the total distance is \<open>p\<close> times the
  number of laps. For a non-empty result, \<open>avg_swolf\<close> is the sum of the laps' SWOLF
  values divided by their number; the breakdown holds each style's lap count;
  \<open>primary_stroke\<close> is a style of some lap, no style has more laps, and every style
  met before the first lap of the primary style has strictly fewer laps (among the
  styles with the highest count, the first encountered wins).
\<close>

theorem aggregate_consistency:
  "((\<forall>lap \<in> set (laps r). pool_length_m lap = p) \<longrightarrow> total_distance_m r = p * total_laps r)
   \<and> (laps r \<noteq> [] \<longrightarrow>
        avg_swolf r = Inr (real_of_int (\<Sum>lap\<leftarrow>laps r. swolf lap) / real (length (laps r)))
      \<and> primary_stroke r \<in> set (map stroke_type (laps r))
      \<and> (\<forall>s. dict_get (get_stroke_breakdown r) s 0 = int (count_list (map stroke_type (laps r)) s))
      \<and> (\<forall>s. count_list (map stroke_type (laps r)) s
                \<le> count_list (map stroke_type (laps r)) (primary_stroke r))
      \<and> (\<forall>s \<in> set (takeWhile (\<lambda>y. y \<noteq> primary_stroke r) (map stroke_type (laps r))).
            count_list (map stroke_type (laps r)) s
              < count_list (map stroke_type (laps r)) (primary_stroke r)))"
proof -
  have dist: "(\<forall>lap \<in> set (laps r). pool_length_m lap = p) \<longrightarrow> total_distance_m r = p * total_laps r"
    by (simp add: total_distance_m_def total_laps_def sum_list_distance)
  have avg: "laps r \<noteq> [] \<Longrightarrow>
    avg_swolf r = Inr (real_of_int (\<Sum>lap\<leftarrow>laps r. swolf lap) / real (length (laps r)))"
    by (simp add: avg_swolf_def py_truediv_def)
  have cnt: "dict_get (get_stroke_breakdown r) s 0 = int (count_list (map stroke_type (laps r)) s)" for s
    by (simp add: get_stroke_breakdown_def breakdown_counts)
  show ?thesis
    using dist avg cnt primary_stroke_first_max[of r] by blast
qed

theorem aggregate_consistency_witness:
  "map pool_length_m (laps four_laps) = [25, 25, 25, 25] \<and> laps four_laps \<noteq> []
   \<and> total_distance_m four_laps = 25 * total_laps four_laps
   \<and> avg_swolf four_laps = Inr (153 / 4)
   \<and> primary_stroke four_laps = BACKSTROKE
   \<and> dict_get (get_stroke_breakdown four_laps) FREESTYLE 0 = 2"
  using aggregate_consistency[of four_laps 25]
  by (simp add: swolf_def py_int_def primary_stroke_def get_stroke_breakdown_def count_lap_def
      py_max_key_def)

subsection \<open>Classification of short and of face-up laps\<close>

text \<open>
  Claim C8. For every lap array of shape \<open>(n, 3)\<close>: if \<open>n < 30\<close> then \<open>classify\<close>
  returns unknown; if \<open>n \<ge> 30\<close> and the mean of the Z column exceeds the gravity
  threshold (\<^verbatim>\<open>backstroke_gravity_z\<close>, 5.0 when the thresholds do not set it) then
  \<open>classify\<close> returns backstroke, whatever the other two columns hold.
\<close>

theorem classify_short_and_backstroke:
  "(length lap_data < 30 \<longrightarrow> classify thresholds (Arr3 lap_data) = Inr UNKNOWN)
   \<and> (30 \<le> length lap_data
        \<and> cfg_get thresholds ''backstroke_gravity_z'' 5 < np_mean (col_z lap_data)
      \<longrightarrow> classify thresholds (Arr3 lap_data) = Inr BACKSTROKE)"
  by (simp add: detect_backstroke_by_gravity_def split: prod.splits)

lemma sum_list_replicate_real: "sum_list (replicate n (x::real)) = real n * x"
  by (induction n) (simp_all add: algebra_simps)

theorem classify_short_and_backstroke_witness:
  "classify Map.empty (Arr3 (replicate 29 (1, 2, 3))) = Inr UNKNOWN
   \<and> 30 \<le> length face_up_lap
   \<and> cfg_get Map.empty ''backstroke_gravity_z'' 5 < np_mean (col_z face_up_lap)
   \<and> classify Map.empty (Arr3 face_up_lap) = Inr BACKSTROKE"
  using classify_short_and_backstroke[of "replicate 29 (1, 2, 3)" Map.empty]
    classify_short_and_backstroke[of face_up_lap Map.empty]
  by (simp add: cfg_get_def np_mean_def col_z_def sum_list_replicate_real)

subsection \<open>Slices of sensor data\<close>

lemma py_len_nd_rows: "lo + n \<le> py_len b \<Longrightarrow> py_len (nd_rows b lo n) = n"
  by (cases b) auto

lemma nd_rows_nd_rows:
  "lo' + n' \<le> n \<Longrightarrow> nd_rows (nd_rows b lo n) lo' n' = nd_rows b (lo + lo') n'"
  by (cases b) (simp_all add: drop_take min_def add.commute)

lemma slice_bound_valid: "0 \<le> k \<Longrightarrow> k \<le> int n \<Longrightarrow> slice_bound n k = nat k"
  by (simp add: slice_bound_def)

lemma view_slice_valid:
  assumes "0 \<le> s" "s \<le> e" "e \<le> int (n_rows v)"
  shows "view_slice v s e = \<lparr>buffer = buffer v, first_row = first_row v + nat s, n_rows = nat (e - s)\<rparr>"
proof -
  have "slice_bound (n_rows v) s = nat s" "slice_bound (n_rows v) e = nat e"
    using assms by (simp_all add: slice_bound_valid)
  moreover have "nat e - nat s = nat (e - s)" using assms by simp
  ultimately show ?thesis by (simp add: view_slice_def Let_def)
qed

lemma array_read_view_slice:
  assumes "array_read h v = Some a" "0 \<le> s" "s \<le> e" "e \<le> int (n_rows v)"
  shows "array_read h (view_slice v s e) = Some (nd_rows a (nat s) (nat (e - s)))"
proof -
  from assms(1) obtain b where b: "h (buffer v) = Some b" "first_row v + n_rows v \<le> py_len b"
    "a = nd_rows b (first_row v) (n_rows v)"
    by (auto simp: array_read_def split: option.splits if_splits)
  have le: "nat s + nat (e - s) \<le> n_rows v" using assms(2-4) by linarith
  then have "first_row v + nat s + nat (e - s) \<le> py_len b" using b(2) by linarith
  then show ?thesis
    using b le by (simp add: view_slice_valid[OF assms(2-4)] array_read_def nd_rows_nd_rows)
qed

lemma nd_rows_setitem:
  assumes "nd_setitem b (lo + j) x = Inr b'" "j < n"
  shows "nd_setitem (nd_rows b lo n) j x = Inr (nd_rows b' lo n)"
  using assms
  by (cases b; cases x) (auto simp: drop_update_swap take_update_swap)

lemma py_len_setitem: "nd_setitem b i x = Inr b' \<Longrightarrow> py_len b' = py_len b"
  by (cases b; cases x) auto

lemma write_through_slice:
  assumes "array_read h v = Some a" "0 \<le> s" "s \<le> e" "e \<le> int (n_rows v)"
    and "setitem h (view_slice v s e) i x = Inr h'"
  shows "\<exists>a'. nd_setitem a (nat s + i) x = Inr a' \<and> array_read h' v = Some a'"
proof -
  from assms(1) obtain b where b: "h (buffer v) = Some b" "first_row v + n_rows v \<le> py_len b"
    "a = nd_rows b (first_row v) (n_rows v)"
    by (auto simp: array_read_def split: option.splits if_splits)
  let ?w = "view_slice v s e"
  have w: "?w = \<lparr>buffer = buffer v, first_row = first_row v + nat s, n_rows = nat (e - s)\<rparr>"
    by (rule view_slice_valid[OF assms(2-4)])
  from assms(5) b(1) obtain b' where i: "i < nat (e - s)"
    and set: "nd_setitem b (first_row v + nat s + i) x = Inr b'"
    and h': "h' = h(buffer v \<mapsto> b')"
    by (auto simp: setitem_def w split: if_splits sum.splits)
  have lt: "nat s + i < n_rows v" using i assms(2-4) by linarith
  have "nd_setitem a (nat s + i) x = Inr (nd_rows b' (first_row v) (n_rows v))"
    unfolding b(3) using set lt by (intro nd_rows_setitem) (simp_all add: add.assoc)
  moreover have "array_read h' v = Some (nd_rows b' (first_row v) (n_rows v))"
    using b(2) py_len_setitem[OF set] by (simp add: array_read_def h')
  ultimately show ?thesis by blast
qed

text \<open>
  Claim C4, as stated, on a SensorData of four rows: after \<^verbatim>\<open>s = data.slice(1, 3)\<close> and
  \<^verbatim>\<open>s.accel[0] = (9, 9, 9)\<close> the source's \<^verbatim>\<open>accel\<close> reads \<open>(9, 9, 9)\<close> in row 1: the
  slice is a view of the source's buffer, not a copy.
\<close>

theorem slice_mutation_counterexample:
  "(case setitem store0 (accel (snd (slice store0 sensor_views 1 3))) 0 (Row (9, 9, 9)) of
      Inl e \<Rightarrow> None
    | Inr h' \<Rightarrow> array_read h' (accel sensor_views))
     = Some (Arr3 [(1, 1, 1), (9, 9, 9), (3, 3, 3), (4, 4, 4)])
   \<and> array_read store0 (accel sensor_views) = Some (Arr3 four_rows)"
  by (simp add: slice_def view_slice_def slice_bound_def setitem_def array_read_def)

text \<open>
  Claim C4, amended. For each of the arrays \<^verbatim>\<open>timestamps\<close>, \<^verbatim>\<open>accel\<close>, \<^verbatim>\<open>gyro\<close> of a
  SensorData and every index pair \<open>0 \<le> start \<le> end \<le> N\<close>: \<^verbatim>\<open>slice\<close> writes nothing (the
  store is unchanged), the array of the returned SensorData reads as rows
  \<open>start..end-1\<close> of the source's, and it is a view on the source's buffer: a successful
  assignment to its row \<open>i\<close> is the same assignment to row \<open>start + i\<close> of the source's
  array.
\<close>

theorem slice_shares_memory:
  assumes "f \<in> {timestamps, accel, gyro}"
    and "array_read h (f self) = Some a"
    and "0 \<le> s" "s \<le> e" "e \<le> int (n_rows (f self))"
  shows "fst (slice h self s e) = h
     \<and> array_read h (f (snd (slice h self s e))) = Some (nd_rows a (nat s) (nat (e - s)))
     \<and> (\<forall>i x h'. setitem h (f (snd (slice h self s e))) i x = Inr h' \<longrightarrow>
           (\<exists>a'. nd_setitem a (nat s + i) x = Inr a' \<and> array_read h' (f self) = Some a'))"
proof -
  from assms(1) have f: "f (snd (slice h self s e)) = view_slice (f self) s e"
    by (auto simp: slice_def)
  show ?thesis
    unfolding f
    using array_read_view_slice[OF assms(2-5)] write_through_slice[OF assms(2-5)]
    by (simp add: slice_def)
qed

theorem slice_shares_memory_witness:
  "array_read store0 (accel sensor_views) = Some (Arr3 four_rows)
   \<and> array_read store0 (accel (snd (slice store0 sensor_views 1 3)))
       = Some (Arr3 [(2, 2, 2), (3, 3, 3)])
   \<and> setitem store0 (accel (snd (slice store0 sensor_views 1 3))) 0 (Scalar 0)
       = Inr (store0(1 \<mapsto> Arr3 [(1, 1, 1), (0, 0, 0), (3, 3, 3), (4, 4, 4)]))
   \<and> array_read (store0(1 \<mapsto> Arr3 [(1, 1, 1), (0, 0, 0), (3, 3, 3), (4, 4, 4)]))
         (accel sensor_views)
       = Some (Arr3 [(1, 1, 1), (0, 0, 0), (3, 3, 3), (4, 4, 4)])"
  using slice_shares_memory[of accel store0 sensor_views "Arr3 four_rows" 1 3]
  by (simp add: slice_def view_slice_def slice_bound_def setitem_def array_read_def)

subsection \<open>The filter on short inputs\<close>

text \<open>
  Up to \<open>order + 1\<close> samples the input is returned as it is; beyond \<open>3 * (order + 1)\<close>
  samples it is filtered and keeps its shape; in between, the padding check of
  \<^verbatim>\<open>filtfilt\<close> raises.
\<close>

lemma length_firwin: "length (firwin numtaps cutoff) = numtaps"
  by (simp add: firwin_def Let_def)

lemma get_filter_taps_length:
  "get_filter_taps self sampling_rate = Inr taps \<Longrightarrow> length taps = order self + 1"
  by (auto simp: get_filter_taps_def Let_def py_truediv_def length_firwin split: if_splits)

lemma get_filter_taps_total:
  "sampling_rate \<noteq> 0 \<Longrightarrow> \<exists>taps. get_filter_taps self sampling_rate = Inr taps"
  by (simp add: get_filter_taps_def Let_def py_truediv_def)


lemma filtfilt_1d_short:
  "length x \<le> 3 * max (length b) 1 \<Longrightarrow> filtfilt_1d b x = Inl ValueError"
  by (simp add: filtfilt_1d_def Let_def)


lemma filtfilt_short:
  "py_len data \<le> 3 * max (length b) 1 \<Longrightarrow> filtfilt b data = Inl ValueError"
  by (cases data) (simp_all add: filtfilt_1d_short col_x_def)


lemma process_raises_between:
  assumes "order self + 1 < py_len data" "py_len data \<le> 3 * (order self + 1)" "sampling_rate \<noteq> 0"
  shows "process self data sampling_rate = Inl ValueError"
proof -
  obtain taps where t: "get_filter_taps self sampling_rate = Inr taps"
    using get_filter_taps_total[OF assms(3)] by blast
  then have "length taps = order self + 1" by (rule get_filter_taps_length)
  with assms(2) have "filtfilt taps data = Inl ValueError"
    by (intro filtfilt_short) simp
  with assms(1) t show ?thesis by (simp add: process_def)
qed


text \<open>
  Claim C2 at 100 samples and the default order 48, for either shape: 100 is more than
  \<open>order + 1 = 49\<close>, so the guard lets the data through, and no more than the padding
  length 147, so \<^verbatim>\<open>filtfilt\<close> raises ValueError where the claim promises an output of the
  input's shape.
\<close>

theorem process_raises_on_100_samples:
  "process \<lparr>order = 48, cutoff_hz = 3\<rparr> (Arr1 (replicate 100 0)) 30 = Inl ValueError
   \<and> process \<lparr>order = 48, cutoff_hz = 3\<rparr> (Arr3 (replicate 100 (0, 0, 98 / 10))) 30
       = Inl ValueError"
  by (simp add: process_raises_between)

subsection \<open>Lap ranges of the segmenter\<close>






lemma length_dilate [simp]: "length (dilate msk sz) = length msk"
  by (simp add: dilate_def)

lemma length_erode [simp]: "length (erode msk sz) = length msk"
  by (simp add: erode_def)








subsection \<open>Stroke counting\<close>

text \<open>Both counting methods return a count on an \<open>(n, 3)\<close> array.\<close>

lemma find_peaks_total:
  "1 \<le> distance \<Longrightarrow> \<exists>peaks. find_peaks x distance = Inr peaks"
  by (simp add: find_peaks_def Let_def)

lemma count_strokes_total:
  "\<exists>c. count_strokes self (Arr3 rows) style = Inr c \<and> 0 \<le> c"
proof (cases "length rows < 10")
  case True
  then show ?thesis by simp
next
  case False
  define signal where
    "signal = map (\<lambda>v. v - np_mean (stroke_axis rows style)) (stroke_axis rows style)"
  define d where "d = max 3 (calculate_min_peak_distance self style)"
  have "1 \<le> d" by (simp add: d_def)
  then obtain pp pn where "find_peaks signal d = Inr pp" "find_peaks (map uminus signal) d = Inr pn"
    using find_peaks_total[of d signal] find_peaks_total[of d "map uminus signal"] by blast
  with False show ?thesis
    by (simp add: Let_def signal_def[symmetric] d_def[symmetric] le_max_iff_disj)
qed

lemma fftfreq_positive:
  assumes "0 < n" "0 < fs"
  shows "\<exists>freqs. fftfreq n (1 / fs) = Inr freqs \<and> length freqs = n
     \<and> (\<forall>k \<in> set (positive_bins freqs).
           1 \<le> k \<and> k \<le> (n - 1) div 2 \<and> freqs ! k = real k * fs / real n)"
proof -
  define freqs where "freqs = map (\<lambda>k. (if k < (n - 1) div 2 + 1 then real k else real k - real n)
      * (1 / (real n * (1 / fs)))) [0..<n]"
  have ff: "fftfreq n (1 / fs) = Inr freqs"
    using assms by (simp add: fftfreq_def py_truediv_def freqs_def)
  have len: "length freqs = n" by (simp add: freqs_def)
  have "1 \<le> k \<and> k \<le> (n - 1) div 2 \<and> freqs ! k = real k * fs / real n"
    if "k \<in> set (positive_bins freqs)" for k
  proof -
    from that len have kn: "k < n" and pos: "0 < freqs ! k"
      by (auto simp: positive_bins_def)
    have val: "freqs ! k = (if k < (n - 1) div 2 + 1 then real k else real k - real n) * (fs / real n)"
      using kn by (simp add: freqs_def)
    have fpos: "0 < fs / real n" using assms by simp
    have "k < (n - 1) div 2 + 1"
    proof (rule ccontr)
      assume "\<not> k < (n - 1) div 2 + 1"
      then have eq: "freqs ! k = (real k - real n) * (fs / real n)" using val by simp
      have "real k - real n < 0" using kn by simp
      from mult_neg_pos[OF this fpos] have "freqs ! k < 0" unfolding eq .
      with pos show False by simp
    qed
    then have v: "freqs ! k = real k * (fs / real n)" using val by simp
    have "k \<noteq> 0"
    proof
      assume "k = 0"
      with v have "freqs ! k = 0" by simp
      with pos show False by simp
    qed
    with \<open>k < (n - 1) div 2 + 1\<close> v show ?thesis by simp
  qed
  with ff len show ?thesis by blast
qed

lemma count_strokes_fft_short:
  "length rows < 30 \<Longrightarrow>
   count_strokes_fft self (Arr3 rows) style = count_strokes self (Arr3 rows) style"
  by simp

lemma count_strokes_fft_empty_band:
  assumes "30 \<le> length rows" "0 < counter_sampling_rate self"
    and "\<forall>k. 1 \<le> k \<and> k \<le> (length rows - 1) div 2 \<longrightarrow>
           \<not> in_band style (real k * counter_sampling_rate self / real (length rows))"
  shows "count_strokes_fft self (Arr3 rows) style = Inr 0"
proof -
  define fs where "fs = counter_sampling_rate self"
  have n: "length (stroke_axis rows style) = length rows"
    by (simp add: stroke_axis_def col_y_def col_z_def)
  have "0 < length rows" "0 < fs" using assms(1,2) by (auto simp: fs_def)
  then obtain freqs where ff: "fftfreq (length rows) (1 / fs) = Inr freqs"
    and bins: "\<forall>k \<in> set (positive_bins freqs).
           1 \<le> k \<and> k \<le> (length rows - 1) div 2 \<and> freqs ! k = real k * fs / real (length rows)"
    using fftfreq_positive[of "length rows" fs] by blast
  have "\<not> (\<exists>b \<in> set (map (in_band style) (map (\<lambda>k. freqs ! k) (positive_bins freqs))). b)"
    using bins assms(3) by (auto simp: fs_def)
  with assms(1,2) ff show ?thesis
    by (auto simp add: Let_def n py_truediv_def fs_def simp del: set_map)
qed





text \<open>The two laps with one raised sample: peak detection finds the one peak.\<close>

lemma peak_count_bump_28: "count_strokes counter_30hz (Arr3 (bump_lap 28)) BREASTSTROKE = Inr 1"
  by code_simp

lemma peak_count_bump_8: "count_strokes counter_30hz (Arr3 (bump_lap 8)) UNKNOWN = Inr 1"
  by code_simp

lemma band_empty_30:
  "\<forall>k. 1 \<le> k \<and> k \<le> (length (bump_lap 28) - 1) div 2 \<longrightarrow>
     \<not> in_band BREASTSTROKE (real k * counter_sampling_rate counter_30hz
                               / real (length (bump_lap 28)))"
  by (auto simp: in_band_def)

lemma fft_count_bump_28:
  "count_strokes_fft counter_30hz (Arr3 (bump_lap 28)) BREASTSTROKE = Inr 0"
  by (rule count_strokes_fft_empty_band[OF _ _ band_empty_30]) simp_all

text \<open>
  Claim C3, as stated, at a breaststroke lap of 30 samples at 30 Hz with one raised
  sample: the bins of the spectrum lie at 1, 2, ..., 14 Hz and none in the band
  0.3 to 0.8 Hz, so the band holds no energy; the spectral method returns 0 while peak
  detection counts 1.
\<close>

theorem fft_empty_band_counterexample:
  "count_strokes_fft counter_30hz (Arr3 (bump_lap 28)) BREASTSTROKE
     \<noteq> count_strokes counter_30hz (Arr3 (bump_lap 28)) BREASTSTROKE"
  by (simp only: fft_count_bump_28 peak_count_bump_28) simp

text \<open>
  Claim C3, amended. On a lap of fewer than 30 samples the spectral method returns what
  peak detection returns, and that is a count (it does not raise). On a lap of 30 or more
  samples, at a positive sampling rate, when no positive bin \<open>k * rate / n\<close>
  (\<open>1 \<le> k \<le> (n - 1) div 2\<close>) lies in the style's band, it returns 0, not the peak count.
\<close>

theorem fft_fallbacks:
  "(length rows < 30 \<longrightarrow>
      count_strokes_fft self (Arr3 rows) style = count_strokes self (Arr3 rows) style
      \<and> (\<exists>c. count_strokes_fft self (Arr3 rows) style = Inr c))
   \<and> (30 \<le> length rows \<and> 0 < counter_sampling_rate self
      \<and> (\<forall>k. 1 \<le> k \<and> k \<le> (length rows - 1) div 2 \<longrightarrow>
            \<not> in_band style (real k * counter_sampling_rate self / real (length rows)))
      \<longrightarrow> count_strokes_fft self (Arr3 rows) style = Inr 0)"
proof (intro conjI impI)
  assume "length rows < 30"
  then show "count_strokes_fft self (Arr3 rows) style = count_strokes self (Arr3 rows) style"
    by simp
  then show "\<exists>c. count_strokes_fft self (Arr3 rows) style = Inr c"
    using count_strokes_total[of self rows style] by auto
next
  assume "30 \<le> length rows \<and> 0 < counter_sampling_rate self
      \<and> (\<forall>k. 1 \<le> k \<and> k \<le> (length rows - 1) div 2 \<longrightarrow>
            \<not> in_band style (real k * counter_sampling_rate self / real (length rows)))"
  then show "count_strokes_fft self (Arr3 rows) style = Inr 0"
    using count_strokes_fft_empty_band[of rows self style] by blast
qed

theorem fft_fallbacks_witness:
  "length (bump_lap 8) < 30
   \<and> count_strokes_fft counter_30hz (Arr3 (bump_lap 8)) UNKNOWN = Inr 1
   \<and> 30 \<le> length (bump_lap 28)
   \<and> count_strokes_fft counter_30hz (Arr3 (bump_lap 28)) BREASTSTROKE = Inr 0"
  using fft_fallbacks[of "bump_lap 8" counter_30hz UNKNOWN]
    fft_fallbacks[of "bump_lap 28" counter_30hz BREASTSTROKE] band_empty_30 peak_count_bump_8
  by simp





subsection \<open>The pipeline on malformed sessions\<close>















end
